theory Spec2Isabelle
  imports
    Complex_Main
    "HOL-Library.Char_ord"
    "HOL-Library.List_Lexorder"
    "HOL-Library.Option_ord"
    "HOL-Library.Multiset"
    "HOL-Library.Sublist"
begin

section \<open>Data model: the three tables of \<^verbatim>\<open>init_db\<close>\<close>

text \<open>
  A row of each table is a record; a table is the list of its rows in rowid order, which is
  the order a full table scan visits them in.  Text columns are strings, compared byte by
  byte (the BINARY collation), which is the lexicographic order on \<^typ>\<open>string\<close>;
  every element of a string stands for one character.  A value of a REAL column is a finite
  double, held as the rational number it denotes; text that the REAL affinity cannot convert
  to a number is outside this model.  The totals of the aggregation queries and the
  arithmetic of the forecast round as double arithmetic does (see the section on doubles);
  the total and the remaining budget that the dashboard computes itself are kept as the
  exact sum and difference.
  The column \<^verbatim>\<open>id\<close> of each table is named after its table here, \<^verbatim>\<open>note\<close> is
  \<open>expense_note\<close> and
  \<^verbatim>\<open>user_budget.user_id\<close> is \<open>budget_user_id\<close>, since record fields share one name space.
\<close>

record user =
  users_id :: int
  username :: string
  email :: string
  password_hash :: string

record expense =
  expense_id :: int
  user_id :: int
  amount :: rat
  category :: string
  date :: string
  expense_note :: "string option"

record budget =
  budget_id :: int
  budget_user_id :: int
  monthly_income :: rat
  savings_goal :: rat

text \<open>
  The three \<open>_seq\<close> fields are the rows of \<^verbatim>\<open>sqlite_sequence\<close>: the largest rowid an
  AUTOINCREMENT table has ever held.
\<close>

record database =
  users :: "user list"
  expenses :: "expense list"
  user_budget :: "budget list"
  users_seq :: int
  expenses_seq :: int
  user_budget_seq :: int

section \<open>Double-precision arithmetic\<close>

text \<open>
  \<open>to_double x\<close> is the IEEE 754 binary64 number nearest to \<open>x\<close>, a tie going to the even
  significand, subnormal numbers included; a result beyond the largest finite double is
  outside the model.  An operation of the engine or of Python on doubles is the exact
  operation followed by \<open>to_double\<close>.  \<open>ilog2 n\<close> is the position of the leading bit of
  \<open>n\<close>, and \<open>binade x\<close>, for positive \<open>x\<close>, the exponent \<open>e\<close> with
  \<open>2 ^ e \<le> x < 2 ^ (e + 1)\<close>.
\<close>

function ilog2 :: "int \<Rightarrow> nat" where
  "ilog2 n = (if n < 2 then 0 else Suc (ilog2 (n div 2)))"
  by pat_completeness auto
termination
  by (relation "measure nat") auto

declare ilog2.simps [simp del]

definition pow2 :: "int \<Rightarrow> rat" where
  "pow2 k = (if 0 \<le> k then 2 ^ nat k else 1 / 2 ^ nat (- k))"

definition binade :: "rat \<Rightarrow> int" where
  "binade x =
     (let (p, q) = quotient_of x;
          d = int (ilog2 p) - int (ilog2 q)
      in if pow2 d \<le> x then d else d - 1)"

text \<open>The integer nearest to \<open>y\<close>, a tie going to the even one.\<close>

definition round_half_even :: "rat \<Rightarrow> int" where
  "round_half_even y =
     (let below = \<lfloor>y\<rfloor>;
          rest = y - of_int below
      in if rest < 1 / 2 then below
         else if 1 / 2 < rest then below + 1
         else if even below then below else below + 1)"

definition to_double :: "rat \<Rightarrow> rat" where
  "to_double x =
     (if x = 0 then 0
      else (let e = max (binade \<bar>x\<bar>) (- 1022);
                ulp = pow2 (e - 52)
            in of_int (round_half_even (x / ulp)) * ulp))"

text \<open>Adding doubles one after the other, from 0, each addition rounded.\<close>

definition double_sum :: "rat list \<Rightarrow> rat" where
  "double_sum xs = foldl (\<lambda>acc x. to_double (acc + x)) 0 xs"

section \<open>What the platform supplies\<close>

text \<open>
  The functions of the database engine and of the libraries that the program calls but does
  not define are parameters of the model:
  \<^item> \<open>strftime_ym\<close> is the engine's \<^verbatim>\<open>strftime('%Y-%m', date)\<close>, \<open>None\<close> being NULL
    (the result for text that is no date);
  \<^item> \<open>sql_like pattern text\<close> is the engine's \<^verbatim>\<open>text LIKE pattern\<close>;
  \<^item> \<open>sql_sum\<close> is the engine's \<^verbatim>\<open>SUM\<close> over the values of a group, in the order of the
    scan, and \<open>py_sum\<close> is Python's \<^verbatim>\<open>sum\<close> over a list of floats; both add doubles, by
    plain or by compensated summation depending on the version;
  \<^item> \<open>real_affinity\<close> is the conversion of a submitted text to the number a REAL column stores;
  \<^item> \<open>generate_password_hash\<close> is werkzeug's function of that name, for this request;
  \<^item> \<open>days_ago n\<close> is \<^verbatim>\<open>(datetime.now() - timedelta(days=n)).strftime('%Y-%m-%d')\<close>,
    \<open>current_month\<close> is \<^verbatim>\<open>datetime.now().strftime('%Y-%m')\<close> and \<open>next_month\<close> is
    \<^verbatim>\<open>(datetime.now() + relativedelta(months=1)).strftime('%Y-%m')\<close>;
  \<^item> \<open>csv_field\<close> is the text pandas writes for one cell of a data frame.
  A value bound to a \<^verbatim>\<open>?\<close> of a query, and a cell of a result row, is an \<open>sql_value\<close>.
\<close>

datatype sql_value = Sql_int int | Sql_real rat | Sql_text string | Sql_null

record platform =
  strftime_ym :: "string \<Rightarrow> string option"
  sql_like :: "string \<Rightarrow> string \<Rightarrow> bool"
  sql_sum :: "rat list \<Rightarrow> rat"
  py_sum :: "rat list \<Rightarrow> rat"
  real_affinity :: "string \<Rightarrow> rat"
  generate_password_hash :: "string \<Rightarrow> string"
  days_ago :: "nat \<Rightarrow> string"
  current_month :: string
  next_month :: string
  csv_field :: "sql_value \<Rightarrow> string"

section \<open>The SQL constructs the queries use\<close>

text \<open>\<^verbatim>\<open>fetchone()\<close>: the first row of the result, or \<open>None\<close>.\<close>

definition fetchone :: "'a list \<Rightarrow> 'a option" where
  "fetchone rs = (case rs of [] \<Rightarrow> None | r # _ \<Rightarrow> Some r)"

text \<open>
  \<^verbatim>\<open>ORDER BY col ASC\<close> and \<^verbatim>\<open>ORDER BY col DESC\<close>.  The engine's sorter keeps rows
  with equal keys in the order the scan delivered them; both directions are stable here.
\<close>

definition order_by_asc :: "('r \<Rightarrow> 'k::linorder) \<Rightarrow> 'r list \<Rightarrow> 'r list" where
  "order_by_asc col rs = sort_key col rs"

definition order_by_desc :: "('r \<Rightarrow> 'k::linorder) \<Rightarrow> 'r list \<Rightarrow> 'r list" where
  "order_by_desc col rs = rev (sort_key col (rev rs))"

text \<open>\<^verbatim>\<open>LIMIT n\<close>: a negative \<open>n\<close> is no limit.\<close>

definition sql_limit :: "int \<Rightarrow> 'r list \<Rightarrow> 'r list" where
  "sql_limit n rs = (if n < 0 then rs else take (nat n) rs)"

text \<open>
  \<^verbatim>\<open>SELECT col, SUM(val) ... GROUP BY col\<close>: one result row for each distinct value of
  \<open>col\<close>, in ascending order of that value (NULL first), holding the engine's sum \<open>agg\<close>
  of \<open>val\<close> over the rows of the group, taken in the order of the scan.
\<close>

definition group_by_sum ::
  "(rat list \<Rightarrow> rat) \<Rightarrow> ('r \<Rightarrow> 'k::linorder) \<Rightarrow> ('r \<Rightarrow> rat) \<Rightarrow> 'r list \<Rightarrow> ('k \<times> rat) list" where
  "group_by_sum agg col val rs =
     map (\<lambda>k. (k, agg (map val (filter (\<lambda>r. col r = k) rs))))
       (sort (remdups (map col rs)))"

text \<open>
  The rowid an \<^verbatim>\<open>INTEGER PRIMARY KEY AUTOINCREMENT\<close> column gives a new row: one more than
  the largest rowid the table has ever held.
\<close>

definition next_rowid :: "int \<Rightarrow> int list \<Rightarrow> int" where
  "next_rowid seq ids = fold max ids (max seq 0) + 1"

section \<open>Aggregation\<close>

text \<open>\<^verbatim>\<open>calculate_category_spending\<close>: the rows \<open>(category, total)\<close>.\<close>

definition calculate_category_spending :: "platform \<Rightarrow> database \<Rightarrow> int \<Rightarrow> (string \<times> rat) list" where
  "calculate_category_spending pf db uid =
     group_by_sum (sql_sum pf) category amount (filter (\<lambda>e. user_id e = uid) (expenses db))"


text \<open>
  Python's \<^verbatim>\<open>round(x, ndigits)\<close> on a double: the exact value of \<open>x\<close> is rounded to the
  nearest multiple of \<open>10 ^ - ndigits\<close>, a tie going to the even one, and the result is the
  double nearest to that decimal number.
\<close>

definition py_round :: "rat \<Rightarrow> nat \<Rightarrow> rat" where
  "py_round x ndigits =
     to_double (of_int (round_half_even (x * 10 ^ ndigits)) / 10 ^ ndigits)"

text \<open>
  \<^verbatim>\<open>forecast_next_month\<close>.  \<open>result\<close> holds one row \<open>(month, total)\<close> for each distinct
  value of \<^verbatim>\<open>strftime('%Y-%m', date)\<close> among the user's expenses whose date text is not
  below the date of 90 days ago.  The totals are added by Python's \<^verbatim>\<open>sum\<close>, and the
  division of that double by the number of rows is rounded to a double.
\<close>

definition forecast_next_month :: "platform \<Rightarrow> database \<Rightarrow> int \<Rightarrow> rat" where
  "forecast_next_month pf db uid =
     (let three_months_ago = days_ago pf 90;
          result = order_by_asc fst
            (group_by_sum (sql_sum pf) (\<lambda>e. strftime_ym pf (date e)) amount
               (filter (\<lambda>e. user_id e = uid \<and> three_months_ago \<le> date e) (expenses db)))
      in if length result = 0 then 0
         else (let total_spending = py_sum pf (map snd result);
                   avg_monthly = to_double (total_spending / of_nat (max (length result) 1))
               in py_round avg_monthly 2))"


text \<open>\<^verbatim>\<open>get_top_expenses\<close>: \<^verbatim>\<open>ORDER BY amount DESC LIMIT ?\<close> over the user's rows.\<close>

definition get_top_expenses :: "database \<Rightarrow> int \<Rightarrow> int \<Rightarrow> expense list" where
  "get_top_expenses db uid limit =
     sql_limit limit (order_by_desc amount (filter (\<lambda>e. user_id e = uid) (expenses db)))"

section \<open>Budget access\<close>

text \<open>
  \<^verbatim>\<open>get_budget\<close> returns the database as it leaves it and the row it fetched.  A row
  object is true in \<^verbatim>\<open>if not budget\<close>, so the test is whether a row was fetched.
\<close>

definition get_budget :: "database \<Rightarrow> int \<Rightarrow> database \<times> budget option" where
  "get_budget db uid =
     (let budget = fetchone (filter (\<lambda>b. budget_user_id b = uid) (user_budget db))
      in if budget = None then
           (let rowid = next_rowid (user_budget_seq db) (map budget_id (user_budget db));
                db' = db\<lparr>user_budget := user_budget db @
                          [\<lparr>budget_id = rowid, budget_user_id = uid,
                            monthly_income = 5000, savings_goal = 1000\<rparr>],
                        user_budget_seq := rowid\<rparr>
            in (db', fetchone (filter (\<lambda>b. budget_user_id b = uid) (user_budget db'))))
         else (db, budget))"

section \<open>Expense listing\<close>

text \<open>
  \<^verbatim>\<open>get_expenses\<close> takes its optional filters as texts: \<^verbatim>\<open>None\<close> and the empty text
  are both false in each of its tests, so an absent filter is the empty text here.
  \<open>get_expenses_where\<close> is the query text and the parameter list as they stand before the
  test of \<^verbatim>\<open>sort_by\<close>; \<open>get_expenses_query\<close> is what \<^verbatim>\<open>conn.execute\<close> receives.
\<close>

definition get_expenses_where :: "int \<Rightarrow> string \<Rightarrow> string \<Rightarrow> string \<Rightarrow> string \<Rightarrow> string \<times> sql_value list" where
  "get_expenses_where uid category_filter start_date end_date search =
     (let query = ''SELECT * FROM expenses WHERE user_id = ?'';
          params = [Sql_int uid];
          (query, params) =
            (if category_filter \<noteq> [] \<and> category_filter \<noteq> ''All''
             then (query @ '' AND category = ?'', params @ [Sql_text category_filter])
             else (query, params));
          (query, params) =
            (if start_date \<noteq> []
             then (query @ '' AND date >= ?'', params @ [Sql_text start_date])
             else (query, params));
          (query, params) =
            (if end_date \<noteq> []
             then (query @ '' AND date <= ?'', params @ [Sql_text end_date])
             else (query, params));
          (query, params) =
            (if search \<noteq> []
             then (query @ '' AND (note LIKE ? OR category LIKE ?)'',
                   params @ [Sql_text (''%'' @ search @ ''%''), Sql_text (''%'' @ search @ ''%'')])
             else (query, params))
      in (query, params))"

definition get_expenses_query ::
  "int \<Rightarrow> string \<Rightarrow> string \<Rightarrow> string \<Rightarrow> string \<Rightarrow> string \<Rightarrow> string \<Rightarrow> string \<times> sql_value list" where
  "get_expenses_query uid category_filter start_date end_date search sort_by sort_order =
     (let (query, params) = get_expenses_where uid category_filter start_date end_date search
      in if sort_by \<in> set [''date'', ''amount'', ''category'']
         then (let safe_order = (if sort_order = ''ASC'' then ''ASC'' else ''DESC'')
               in (query @ '' ORDER BY '' @ sort_by @ '' '' @ safe_order, params))
         else (query, params))"



section \<open>Requests and responses\<close>

text \<open>
  A request carries \<^verbatim>\<open>request.method\<close>, here \<open>request_method\<close>, its form fields and its
  query arguments.  A handler returns the database as it leaves it, the messages it flashed, each with its category, and its
  response.  \<^verbatim>\<open>request.form[key]\<close> with no such field ends the request with the
  framework's 400 response, \<open>Bad_request\<close>.  \<open>Redirect\<close> names the endpoint given to
  \<^verbatim>\<open>url_for\<close>, \<open>Render_template\<close> the template; the two templates that show a row carry
  it.  \<open>Send_file\<close> holds the body, the MIME type, \<^verbatim>\<open>as_attachment\<close> and the download
  name.  The handlers behind \<^verbatim>\<open>login_required\<close> take the id of the logged-in user.
\<close>

datatype http_method = GET | POST

record request =
  request_method :: http_method
  form :: "string \<rightharpoonup> string"
  args :: "string \<rightharpoonup> string"

datatype response =
    Redirect string
  | Render_template string
  | Render_edit_expense expense
  | Render_set_budget "budget option"
  | Send_file string string bool string
  | Bad_request

type_synonym outcome = "database \<times> (string \<times> string) list \<times> response"


section \<open>Accounts\<close>

definition signup :: "platform \<Rightarrow> database \<Rightarrow> request \<Rightarrow> outcome" where
  "signup pf db req =
     (if request_method req = POST then
        (case (form req ''username'', form req ''email'', form req ''password'') of
           (Some form_username, Some form_email, Some form_password) \<Rightarrow>
             if length form_password < 8
             then (db, [(''Password must be at least 8 characters long!'', ''danger'')],
                   Redirect ''signup'')
             else
               (let existing_user =
                      fetchone (filter (\<lambda>u. username u = form_username \<or> email u = form_email)
                                  (users db))
                in if existing_user \<noteq> None
                   then (db, [(''Username or email already exists!'', ''danger'')],
                         Redirect ''signup'')
                   else
                     (let hash = generate_password_hash pf form_password;
                          rowid = next_rowid (users_seq db) (map users_id (users db));
                          db' = db\<lparr>users := users db @
                                    [\<lparr>users_id = rowid, username = form_username,
                                      email = form_email, password_hash = hash\<rparr>],
                                  users_seq := rowid\<rparr>
                      in (db', [(''Account created successfully! Please login.'', ''success'')],
                          Redirect ''login'')))
         | _ \<Rightarrow> (db, [], Bad_request))
      else (db, [], Render_template ''signup.html''))"

section \<open>Expense handlers\<close>

definition add_expense :: "platform \<Rightarrow> database \<Rightarrow> int \<Rightarrow> request \<Rightarrow> outcome" where
  "add_expense pf db current_user req =
     (if request_method req = POST then
        (case (form req ''amount'', form req ''category'', form req ''date'') of
           (Some form_amount, Some form_category, Some form_date) \<Rightarrow>
             (let form_note = (case form req ''note'' of None \<Rightarrow> [] | Some n \<Rightarrow> n);
                  rowid = next_rowid (expenses_seq db) (map expense_id (expenses db));
                  db' = db\<lparr>expenses := expenses db @
                            [\<lparr>expense_id = rowid, user_id = current_user,
                              amount = real_affinity pf form_amount, category = form_category,
                              date = form_date, expense_note = Some form_note\<rparr>],
                          expenses_seq := rowid\<rparr>
              in (db', [(''Expense added successfully!'', ''success'')], Redirect ''dashboard''))
         | _ \<Rightarrow> (db, [], Bad_request))
      else (db, [], Render_template ''add_expense.html''))"

text \<open>
  \<^verbatim>\<open>edit_expense\<close>: the \<^verbatim>\<open>UPDATE\<close> rewrites each row that has both the id of the
  route and the id of the logged-in user.
\<close>

definition edit_expense :: "platform \<Rightarrow> database \<Rightarrow> int \<Rightarrow> int \<Rightarrow> request \<Rightarrow> outcome" where
  "edit_expense pf db current_user eid req =
     (if request_method req = POST then
        (case (form req ''amount'', form req ''category'', form req ''date'') of
           (Some form_amount, Some form_category, Some form_date) \<Rightarrow>
             (let form_note = (case form req ''note'' of None \<Rightarrow> [] | Some n \<Rightarrow> n);
                  db' = db\<lparr>expenses :=
                          map (\<lambda>e. if expense_id e = eid \<and> user_id e = current_user
                                    then e\<lparr>amount := real_affinity pf form_amount,
                                           category := form_category, date := form_date,
                                           expense_note := Some form_note\<rparr>
                                    else e) (expenses db)\<rparr>
              in (db', [(''Expense updated successfully!'', ''success'')], Redirect ''dashboard''))
         | _ \<Rightarrow> (db, [], Bad_request))
      else
        (let found = fetchone (filter (\<lambda>e. expense_id e = eid \<and> user_id e = current_user)
                                 (expenses db))
         in case found of
              None \<Rightarrow> (db, [(''Expense not found!'', ''danger'')], Redirect ''dashboard'')
            | Some e \<Rightarrow> (db, [], Render_edit_expense e)))"

definition delete_expense :: "database \<Rightarrow> int \<Rightarrow> int \<Rightarrow> outcome" where
  "delete_expense db current_user eid =
     (let db' = db\<lparr>expenses :=
                  filter (\<lambda>e. \<not> (expense_id e = eid \<and> user_id e = current_user)) (expenses db)\<rparr>
      in (db', [(''Expense deleted successfully!'', ''success'')], Redirect ''dashboard''))"

section \<open>Budget settings\<close>

definition set_budget :: "platform \<Rightarrow> database \<Rightarrow> int \<Rightarrow> request \<Rightarrow> outcome" where
  "set_budget pf db current_user req =
     (if request_method req = POST then
        (case (form req ''monthly_income'', form req ''savings_goal'') of
           (Some form_income, Some form_goal) \<Rightarrow>
             (let db' = db\<lparr>user_budget :=
                          map (\<lambda>b. if budget_user_id b = current_user
                                    then b\<lparr>monthly_income := real_affinity pf form_income,
                                           savings_goal := real_affinity pf form_goal\<rparr>
                                    else b) (user_budget db)\<rparr>
              in (db', [(''Budget settings updated!'', ''success'')], Redirect ''dashboard''))
         | _ \<Rightarrow> (db, [], Bad_request))
      else
        (let (db', budget) = get_budget db current_user
         in (db', [], Render_set_budget budget)))"

section \<open>CSV export\<close>








section \<open>Dashboard\<close>




section \<open>A concrete platform and a concrete database\<close>

text \<open>
  For evaluating the handlers: the month of a date text of the shape \<^verbatim>\<open>YYYY-MM-DD\<close> is
  its first seven characters and other text has none; a pattern \<^verbatim>\<open>%s%\<close> matches the
  texts that contain \<open>s\<close>; sums add doubles one after the other; the clock stands at
  2024-05-31.
\<close>

definition iso_month :: "string \<Rightarrow> string option" where
  "iso_month d =
     (if length d = 10 \<and> d ! 4 = CHR ''-'' \<and> d ! 7 = CHR ''-'' then Some (take 7 d) else None)"

definition contains_like :: "string \<Rightarrow> string \<Rightarrow> bool" where
  "contains_like pattern text = sublist (butlast (tl pattern)) text"

definition cents :: "string \<Rightarrow> rat" where
  "cents t = to_double (of_nat (length t) / 100)"

definition show_cell :: "sql_value \<Rightarrow> string" where
  "show_cell v = (case v of Sql_text t \<Rightarrow> t | Sql_null \<Rightarrow> [] | _ \<Rightarrow> ''#'')"

definition may_2024 :: platform where
  "may_2024 =
     \<lparr>strftime_ym = iso_month, sql_like = contains_like, sql_sum = double_sum,
      py_sum = double_sum, real_affinity = cents,
      generate_password_hash = rev,
      days_ago = (\<lambda>n. if n = 7 then ''2024-05-24'' else if n = 30 then ''2024-05-01''
                       else if n = 90 then ''2024-03-02'' else if n = 180 then ''2023-12-03''
                       else ''2024-05-31''),
      current_month = ''2024-05'', next_month = ''2024-06'', csv_field = show_cell\<rparr>"

definition expense_row :: "int \<Rightarrow> int \<Rightarrow> rat \<Rightarrow> string \<Rightarrow> string \<Rightarrow> expense" where
  "expense_row i u a c d =
     \<lparr>expense_id = i, user_id = u, amount = a, category = c, date = d, expense_note = Some []\<rparr>"

definition no_rows :: database where
  "no_rows = \<lparr>users = [], expenses = [], user_budget = [],
              users_seq = 0, expenses_seq = 0, user_budget_seq = 0\<rparr>"

section \<open>Named selections of rows and example data\<close>

text \<open>
  The rows the query of \<^verbatim>\<open>forecast_next_month\<close> reads: the user's expenses whose date
  text is not below the date of 90 days ago.
\<close>

definition forecast_window :: "platform \<Rightarrow> database \<Rightarrow> int \<Rightarrow> expense list" where
  "forecast_window pf db uid =
     filter (\<lambda>e. user_id e = uid \<and> days_ago pf 90 \<le> date e) (expenses db)"

text \<open>
  The user's expenses dated within the trailing three months, in the words of the
  specification: those from the date of 90 days ago up to today, \<open>days_ago pf 0\<close>.
\<close>

definition trailing_three_months :: "platform \<Rightarrow> database \<Rightarrow> int \<Rightarrow> expense list" where
  "trailing_three_months pf db uid =
     filter (\<lambda>e. user_id e = uid \<and> days_ago pf 90 \<le> date e \<and> date e \<le> days_ago pf 0)
       (expenses db)"

text \<open>
  The calendar months that have an expense in that window: the values \<^verbatim>\<open>YYYY-MM\<close> that
  \<^verbatim>\<open>strftime('%Y-%m', date)\<close> gives on its rows.
\<close>

definition window_months :: "platform \<Rightarrow> database \<Rightarrow> int \<Rightarrow> string set" where
  "window_months pf db uid =
     set (List.map_filter (\<lambda>e. strftime_ym pf (date e)) (forecast_window pf db uid))"

text \<open>
  The totals of the window month by month, in ascending order of the month: for each value
  of \<^verbatim>\<open>strftime('%Y-%m', date)\<close> on the window's rows, the engine's sum of the amounts
  of the rows with that value, taken in storage order.
\<close>

definition window_month_totals :: "platform \<Rightarrow> database \<Rightarrow> int \<Rightarrow> rat list" where
  "window_month_totals pf db uid =
     map (\<lambda>m. sql_sum pf (map amount
                  (filter (\<lambda>e. strftime_ym pf (date e) = m) (forecast_window pf db uid))))
       (sort (remdups (map (\<lambda>e. strftime_ym pf (date e)) (forecast_window pf db uid))))"

text \<open>A database whose one expense, of user 1, is dated years after the clock's day.\<close>

definition future_db :: database where
  "future_db = no_rows\<lparr>expenses := [expense_row 1 1 10 ''Food'' ''2030-01-01'']\<rparr>"

text \<open>The user's expenses, in storage order.\<close>

definition expenses_of :: "database \<Rightarrow> int \<Rightarrow> expense list" where
  "expenses_of db uid = filter (\<lambda>e. user_id e = uid) (expenses db)"

text \<open>The user's expenses of one category, in storage order.\<close>

definition category_rows :: "database \<Rightarrow> int \<Rightarrow> string \<Rightarrow> expense list" where
  "category_rows db uid c = filter (\<lambda>e. category e = c) (expenses_of db uid)"


text \<open>
  Requests, and the expenses of the specification's example: user 1 spends 10.00 and 20.00
  on food in January 2024 and 5.00 on travel in February; a row of user 2 lies between them.
\<close>

definition post_form :: "(string \<times> string) list \<Rightarrow> request" where
  "post_form kvs = \<lparr>request_method = POST, form = map_of kvs, args = Map.empty\<rparr>"


definition example_db :: database where
  "example_db = no_rows
     \<lparr>users := [\<lparr>users_id = 1, username = ''ann'', email = ''ann@example.org'',
                  password_hash = ''h1''\<rparr>,
                \<lparr>users_id = 2, username = ''bob'', email = ''bob@example.org'',
                  password_hash = ''h2''\<rparr>],
      expenses := [expense_row 1 1 10 ''Food'' ''2024-01-05'',
                   expense_row 2 1 20 ''Food'' ''2024-01-10'',
                   expense_row 3 2 99 ''Rent'' ''2024-01-15'',
                   expense_row 4 1 5 ''Travel'' ''2024-02-01''],
      users_seq := 2, expenses_seq := 4\<rparr>"


text \<open>
  A database in which amounts repeat, and the platform of the example with the clock's month
  set to January 2024.
\<close>

definition ties_db :: database where
  "ties_db = no_rows
     \<lparr>expenses := [expense_row 1 1 7 ''Food'' ''2024-05-01'',
                   expense_row 2 1 9 ''Food'' ''2024-05-02'',
                   expense_row 3 1 7 ''Bills'' ''2024-05-03'',
                   expense_row 4 1 9 ''Other'' ''2024-05-04''],
      expenses_seq := 4\<rparr>"


text \<open>
  Amounts that are not whole numbers, as the doubles the table stores: 0.01 in April and
  0.04 in May 2024; and 0.1 and 1.1 on food with 0.1 on travel between them.
\<close>

definition cents_db :: database where
  "cents_db = no_rows
     \<lparr>expenses := [expense_row 1 1 (to_double (1 / 100)) ''Food'' ''2024-04-10'',
                   expense_row 2 1 (to_double (4 / 100)) ''Food'' ''2024-05-10''],
      expenses_seq := 2\<rparr>"

definition dimes_db :: database where
  "dimes_db = no_rows
     \<lparr>expenses := [expense_row 1 1 (to_double (1 / 10)) ''Food'' ''2024-05-01'',
                   expense_row 2 1 (to_double (1 / 10)) ''Travel'' ''2024-05-02'',
                   expense_row 3 1 (to_double (11 / 10)) ''Food'' ''2024-05-03''],
      expenses_seq := 3\<rparr>"

section \<open>Properties of the SQL constructs and of rounding\<close>

lemma sum_list_group_indicator:
  fixes val :: "'r \<Rightarrow> rat"
  assumes "distinct ks" and "col ` set rs \<subseteq> set ks"
  shows "sum_list (map (\<lambda>k. sum_list (map val (filter (\<lambda>r. col r = k) rs))) ks)
           = sum_list (map val rs)"
  using assms(2)
proof (induction rs)
  case Nil
  show ?case by simp
next
  case (Cons r rs)
  have mem: "col r \<in> set ks" using Cons.prems by simp
  have sub: "col ` set rs \<subseteq> set ks" using Cons.prems by simp
  have split: "sum_list (map val (filter (\<lambda>x. col x = k) (r # rs)))
      = (if k = col r then val r else 0) + sum_list (map val (filter (\<lambda>x. col x = k) rs))" for k
    by simp
  have one: "sum_list (map (\<lambda>k. if k = col r then val r else 0) ks) = val r"
    using assms(1) mem by (simp add: sum_list_distinct_conv_sum_set)
  have "sum_list (map (\<lambda>k. sum_list (map val (filter (\<lambda>x. col x = k) (r # rs)))) ks)
      = sum_list (map (\<lambda>k. if k = col r then val r else 0) ks)
        + sum_list (map (\<lambda>k. sum_list (map val (filter (\<lambda>x. col x = k) rs))) ks)"
    unfolding split by (simp add: sum_list_addf)
  also have "\<dots> = val r + sum_list (map val rs)"
    using one Cons.IH [OF sub] by simp
  finally show ?case by simp
qed

lemma length_group_by_sum:
  "length (group_by_sum agg col val rs) = card (col ` set rs)"
  by (simp add: group_by_sum_def length_remdups_card_conv)

lemma group_by_sum_empty_iff: "group_by_sum agg col val rs = [] \<longleftrightarrow> rs = []"
proof -
  have "length (group_by_sum agg col val rs) = 0 \<longleftrightarrow> rs = []"
    by (simp add: group_by_sum_def)
  then show ?thesis by simp
qed


lemma mset_order_by_desc: "mset (order_by_desc col rs) = mset rs"
  by (simp add: order_by_desc_def)


lemma order_by_desc_stable:
  "filter (\<lambda>r. col r = k) (order_by_desc col rs) = filter (\<lambda>r. col r = k) rs"
  by (simp add: order_by_desc_def sort_key_stable flip: rev_filter)

lemma order_by_desc_sorted:
  "sorted_wrt (\<lambda>x y. col y \<le> col x) (order_by_desc col rs)"
proof -
  have "sorted (map col (sort_key col (rev rs)))"
    by (rule sorted_sort_key)
  then have "sorted_wrt (\<lambda>x y. col x \<le> col y) (sort_key col (rev rs))"
    by (simp add: sorted_map)
  then show ?thesis
    by (simp add: order_by_desc_def sorted_wrt_rev)
qed


lemma group_by_sum_sorted_keys:
  "map fst (group_by_sum agg col val rs) = sort (remdups (map col rs))"
  by (simp add: group_by_sum_def comp_def)

lemma order_by_asc_group_by_sum:
  "order_by_asc fst (group_by_sum agg col val rs) = group_by_sum agg col val rs"
  unfolding order_by_asc_def
  by (rule sort_key_id_if_sorted) (simp add: group_by_sum_sorted_keys)

lemma groups_partition:
  assumes "distinct ks" and "col ` set rs \<subseteq> set ks"
  shows "mset (concat (map (\<lambda>k. filter (\<lambda>r. col r = k) rs) ks)) = mset rs"
  using assms
proof (induction ks arbitrary: rs)
  case Nil
  then show ?case by simp
next
  case (Cons k ks)
  let ?rest = "filter (\<lambda>r. col r \<noteq> k) rs"
  have same: "filter (\<lambda>r. col r = c) rs = filter (\<lambda>r. col r = c) ?rest" if "c \<in> set ks" for c
  proof -
    have "c \<noteq> k" using that Cons.prems(1) by auto
    then show ?thesis by (auto intro!: filter_cong)
  qed
  have sub: "col ` set ?rest \<subseteq> set ks"
    using Cons.prems(2) by auto
  have "mset (concat (map (\<lambda>c. filter (\<lambda>r. col r = c) rs) ks))
      = mset (concat (map (\<lambda>c. filter (\<lambda>r. col r = c) ?rest) ks))"
    using same by (simp cong: map_cong)
  also have "\<dots> = mset ?rest"
    using Cons.prems(1) sub by (intro Cons.IH) simp_all
  finally have "mset (concat (map (\<lambda>c. filter (\<lambda>r. col r = c) rs) (k # ks)))
      = mset (filter (\<lambda>r. col r = k) rs) + mset ?rest"
    by simp
  then show ?case by (simp add: multiset_partition [symmetric])
qed

lemma round_half_even_close: "\<bar>y - of_int (round_half_even y)\<bar> \<le> 1 / 2"
proof -
  define below where "below = \<lfloor>y\<rfloor>"
  have lo: "of_int below \<le> y" and hi: "y < of_int below + 1"
    unfolding below_def by linarith+
  have "round_half_even y =
      (if y - of_int below < 1 / 2 then below
       else if 1 / 2 < y - of_int below then below + 1
       else if even below then below else below + 1)"
    by (simp add: round_half_even_def Let_def below_def)
  then show ?thesis
    using lo hi by (auto simp: abs_if)
qed

text \<open>
  Values of the rounding: the double 0.1; a tie between two doubles, which goes to the even
  significand; and \<^verbatim>\<open>round(2.675, 2)\<close>, which is 2.67 because the double 2.675 lies
  below 2.675.
\<close>

lemma to_double_values:
  "to_double (1 / 10) = 3602879701896397 / 2 ^ 55"
  "to_double (2 ^ 53 + 1) = 2 ^ 53"
  "py_round (to_double (2675 / 1000)) 2 = to_double (267 / 100)"
  by code_simp+

lemma fetchone_Some_hd: "rs \<noteq> [] \<Longrightarrow> fetchone rs = Some (hd rs)"
  by (cases rs) (simp_all add: fetchone_def)

lemma fetchone_None_iff: "fetchone rs = None \<longleftrightarrow> rs = []"
  by (cases rs) (simp_all add: fetchone_def)

section \<open>Category totals\<close>

text \<open>
  Claim C2, as the code has it.  For every user the category aggregation returns one row for
  each category that occurs among the user's expenses, in ascending order of the category,
  and the total of a row is the engine's sum of the amounts of all the user's expenses of
  that category, whatever their dates.  The groups split the user's expenses: every expense
  of the user is in the group of exactly one row.  When the engine's sum of each group is
  the exact sum of its amounts, the totals add up to the sum of the amounts of all the
  user's expenses.
\<close>

theorem category_totals_partition_expenses:
  "calculate_category_spending pf db uid =
     map (\<lambda>c. (c, sql_sum pf (map amount (category_rows db uid c))))
       (sort (remdups (map category (expenses_of db uid))))
   \<and> distinct (map fst (calculate_category_spending pf db uid))
   \<and> set (map fst (calculate_category_spending pf db uid)) = category ` set (expenses_of db uid)
   \<and> mset (concat (map (category_rows db uid) (map fst (calculate_category_spending pf db uid))))
       = mset (expenses_of db uid)
   \<and> ((\<forall>c \<in> category ` set (expenses_of db uid).
          sql_sum pf (map amount (category_rows db uid c))
            = sum_list (map amount (category_rows db uid c))) \<longrightarrow>
        sum_list (map snd (calculate_category_spending pf db uid))
          = sum_list (map amount (expenses_of db uid)))"
proof -
  let ?mine = "expenses_of db uid"
  let ?cats = "sort (remdups (map category ?mine))"
  have rows: "calculate_category_spending pf db uid =
      map (\<lambda>c. (c, sql_sum pf (map amount (category_rows db uid c)))) ?cats"
    by (simp add: calculate_category_spending_def group_by_sum_def expenses_of_def
        category_rows_def)
  have keys: "map fst (calculate_category_spending pf db uid) = ?cats"
    unfolding rows by (simp add: comp_def)
  have dist: "distinct ?cats" and cover: "set ?cats = category ` set ?mine"
    by simp_all
  have part: "mset (concat (map (category_rows db uid) ?cats)) = mset ?mine"
    using groups_partition [of ?cats category ?mine]
    by (simp add: category_rows_def [abs_def])
  have exact: "sum_list (map snd (calculate_category_spending pf db uid))
      = sum_list (map amount ?mine)"
    if ex: "\<forall>c \<in> category ` set ?mine.
          sql_sum pf (map amount (category_rows db uid c))
            = sum_list (map amount (category_rows db uid c))"
  proof -
    have "map snd (calculate_category_spending pf db uid)
        = map (\<lambda>c. sql_sum pf (map amount (category_rows db uid c))) ?cats"
      unfolding rows by (simp add: comp_def)
    also have "\<dots> = map (\<lambda>c. sum_list (map amount (category_rows db uid c))) ?cats"
      using ex cover by (intro map_cong) auto
    finally have "sum_list (map snd (calculate_category_spending pf db uid))
        = sum_list (map (\<lambda>c. sum_list (map amount (filter (\<lambda>e. category e = c) ?mine))) ?cats)"
      by (simp add: category_rows_def)
    also have "\<dots> = sum_list (map amount ?mine)"
      by (rule sum_list_group_indicator) simp_all
    finally show ?thesis .
  qed
  show ?thesis
    using rows keys dist cover part exact by simp
qed

text \<open>
  The expenses of the specification's example, for which the sums of doubles are exact:
  the totals are 30.00 for Food and 5.00 for Travel, and they add up to 35.00.
\<close>

theorem category_totals_partition_expenses_witness:
  "calculate_category_spending may_2024 example_db 1 = [(''Food'', 30), (''Travel'', 5)]
   \<and> sum_list (map snd (calculate_category_spending may_2024 example_db 1))
       = sum_list (map amount (expenses_of example_db 1))"
proof -
  have ex: "\<forall>c \<in> category ` set (expenses_of example_db 1).
          sql_sum may_2024 (map amount (category_rows example_db 1 c))
            = sum_list (map amount (category_rows example_db 1 c))"
    by code_simp
  have rows: "calculate_category_spending may_2024 example_db 1 = [(''Food'', 30), (''Travel'', 5)]"
    by code_simp
  have "sum_list (map snd (calculate_category_spending may_2024 example_db 1))
       = sum_list (map amount (expenses_of example_db 1))"
    using category_totals_partition_expenses [of may_2024 example_db 1] ex by blast
  then show ?thesis using rows by blast
qed

text \<open>
  Claim C2 as it is written fails.  User 1 spends 0.1 and 1.1 on food and 0.1 on travel.
  The total for Food is the double 1.2000000000000002, above the sum of its two amounts, so
  the totals do not add up to the sum of the three amounts: added as doubles the totals
  give 1.3000000000000003 and the amounts give 1.3.  Each of these sums is the double
  nearest to the exact sum of its addends, so plain and compensated summation agree on
  them.
\<close>

theorem category_totals_round:
  "sum_list (map snd (calculate_category_spending may_2024 dimes_db 1))
     \<noteq> sum_list (map amount (expenses_of dimes_db 1))
   \<and> py_sum may_2024 (map snd (calculate_category_spending may_2024 dimes_db 1))
       = to_double (13 / 10) + pow2 (- 52)
   \<and> py_sum may_2024 (map amount (expenses_of dimes_db 1)) = to_double (13 / 10)"
  by code_simp

section \<open>Forecast\<close>

lemma set_map_filter_Some:
  "set (List.map_filter f xs) = {y. \<exists>x \<in> set xs. f x = Some y}"
  by (auto simp: List.map_filter_def image_iff) (metis option.sel)

lemma card_window_months:
  assumes "\<forall>e \<in> set (forecast_window pf db uid). strftime_ym pf (date e) \<noteq> None"
  shows "card ((\<lambda>e. strftime_ym pf (date e)) ` set (forecast_window pf db uid))
           = card (window_months pf db uid)"
proof -
  have "(\<lambda>e. strftime_ym pf (date e)) ` set (forecast_window pf db uid)
      = Some ` window_months pf db uid"
    using assms by (force simp: window_months_def set_map_filter_Some image_iff)
  then show ?thesis by (simp add: card_image)
qed

lemma forecast_next_month_unfold:
  "forecast_next_month pf db uid =
     (if forecast_window pf db uid = [] then 0
      else py_round (to_double (py_sum pf (window_month_totals pf db uid)
             / of_nat (card ((\<lambda>e. strftime_ym pf (date e)) ` set (forecast_window pf db uid))))) 2)"
proof -
  let ?w = "forecast_window pf db uid"
  let ?r = "group_by_sum (sql_sum pf) (\<lambda>e. strftime_ym pf (date e)) amount ?w"
  have len: "length ?r = card ((\<lambda>e. strftime_ym pf (date e)) ` set ?w)"
    by (rule length_group_by_sum)
  have tot: "map snd ?r = window_month_totals pf db uid"
    by (simp add: group_by_sum_def window_month_totals_def comp_def)
  have emp: "length ?r = 0 \<longleftrightarrow> ?w = []"
    by (simp add: group_by_sum_empty_iff)
  have unf: "forecast_next_month pf db uid =
      (if length ?r = 0 then 0
       else py_round (to_double (py_sum pf (map snd ?r) / of_nat (max (length ?r) 1))) 2)"
    by (simp add: forecast_next_month_def forecast_window_def Let_def order_by_asc_group_by_sum)
  show ?thesis
  proof (cases "?w = []")
    case True
    then show ?thesis using unf emp by simp
  next
    case False
    then have pos: "length ?r \<noteq> 0" using emp by simp
    have "max (length ?r) 1 = length ?r"
      using pos by (cases "length ?r") simp_all
    then show ?thesis using unf False pos tot len by simp
  qed
qed

text \<open>
  Claim C1, as the code has it.  Take the user's expenses whose date text is on or after
  the date of 90 days ago; the window has no upper end, so an expense dated after today
  belongs to it.  When every date in the window is one the engine's \<^verbatim>\<open>strftime\<close>
  recognises: the forecast is 0 when the window is empty; otherwise it is the sum of the
  window's month totals divided by the number of distinct calendar months that have an
  expense in the window, in double arithmetic, rounded to 2 decimal places.  The rounding
  is Python's: the forecast is the double nearest to a whole number of hundredths that lies
  within half a hundredth of the quotient.
\<close>

theorem forecast_is_average_of_month_totals:
  assumes "\<forall>e \<in> set (forecast_window pf db uid). strftime_ym pf (date e) \<noteq> None"
  shows "(forecast_window pf db uid = [] \<longrightarrow> forecast_next_month pf db uid = 0)
       \<and> (forecast_window pf db uid \<noteq> [] \<longrightarrow>
            forecast_next_month pf db uid =
              py_round (to_double (py_sum pf (window_month_totals pf db uid)
                                     / of_nat (card (window_months pf db uid)))) 2)
       \<and> length (window_month_totals pf db uid) = card (window_months pf db uid)
       \<and> (\<exists>k. forecast_next_month pf db uid = to_double (of_int k / 100)
              \<and> (forecast_window pf db uid \<noteq> [] \<longrightarrow>
                   \<bar>to_double (py_sum pf (window_month_totals pf db uid)
                                / of_nat (card (window_months pf db uid))) * 100 - of_int k\<bar>
                     \<le> 1 / 2))"
proof -
  let ?w = "forecast_window pf db uid"
  let ?avg = "to_double (py_sum pf (window_month_totals pf db uid)
                                     / of_nat (card (window_months pf db uid)))"
  note cm = card_window_months [OF assms]
  have none: "forecast_next_month pf db uid = 0" if "?w = []"
    using that forecast_next_month_unfold [of pf db uid] by simp
  have some: "forecast_next_month pf db uid = py_round ?avg 2" if "?w \<noteq> []"
    using that forecast_next_month_unfold [of pf db uid] cm by simp
  have len: "length (window_month_totals pf db uid) = card (window_months pf db uid)"
    using cm by (simp add: window_month_totals_def length_remdups_card_conv)
  have pin: "\<exists>k. forecast_next_month pf db uid = to_double (of_int k / 100)
              \<and> (?w \<noteq> [] \<longrightarrow> \<bar>?avg * 100 - of_int k\<bar> \<le> 1 / 2)"
  proof (cases "?w = []")
    case True
    then have "forecast_next_month pf db uid = to_double (of_int 0 / 100)"
      using none by (simp add: to_double_def)
    then show ?thesis using True by blast
  next
    case False
    have "forecast_next_month pf db uid
        = to_double (of_int (round_half_even (?avg * 100)) / 100)"
      using some [OF False] by (simp add: py_round_def)
    moreover have "\<bar>?avg * 100 - of_int (round_half_even (?avg * 100))\<bar> \<le> 1 / 2"
      by (rule round_half_even_close)
    ultimately show ?thesis by blast
  qed
  show ?thesis
    using none some len pin by blast
qed

text \<open>
  On 2024-05-31, with 0.01 spent in April and 0.04 in May: the month totals are the two
  amounts, the quotient is the double 0.025, which lies above 0.025, and the forecast is
  0.03.
\<close>

theorem forecast_is_average_of_month_totals_witness:
  "forecast_next_month may_2024 cents_db 1 = to_double (3 / 100)
   \<and> window_month_totals may_2024 cents_db 1 = [to_double (1 / 100), to_double (4 / 100)]
   \<and> card (window_months may_2024 cents_db 1) = 2"
proof -
  have h: "\<forall>e \<in> set (forecast_window may_2024 cents_db 1). strftime_ym may_2024 (date e) \<noteq> None"
    by code_simp
  have w: "forecast_window may_2024 cents_db 1 \<noteq> []"
    by code_simp
  have t: "window_month_totals may_2024 cents_db 1 = [to_double (1 / 100), to_double (4 / 100)]"
    by code_simp
  have c: "card (window_months may_2024 cents_db 1) = 2"
    by code_simp
  have v: "py_round (to_double (py_sum may_2024 (window_month_totals may_2024 cents_db 1)
                                     / of_nat (card (window_months may_2024 cents_db 1)))) 2
      = to_double (3 / 100)"
    by code_simp
  have "forecast_next_month may_2024 cents_db 1 =
      py_round (to_double (py_sum may_2024 (window_month_totals may_2024 cents_db 1)
                                     / of_nat (card (window_months may_2024 cents_db 1)))) 2"
    using forecast_is_average_of_month_totals [OF h] w by blast
  then show ?thesis using v t c by simp
qed

text \<open>
  Claim C1 as it is written fails.  On 2024-05-31 user 1 has one expense, of 10.00, dated
  2030-01-01: no expense of the user lies within the trailing three months, and the
  forecast is 10.00, not 0.
\<close>

theorem forecast_counts_future_expense:
  "trailing_three_months may_2024 future_db 1 = []
     \<and> forecast_next_month may_2024 future_db 1 = 10"
  by code_simp

section \<open>The largest expenses\<close>

lemma get_top_expenses_take:
  "get_top_expenses db uid (int n) = take n (order_by_desc amount (expenses_of db uid))"
  by (simp add: get_top_expenses_def sql_limit_def expenses_of_def)

text \<open>
  Claim C7.  For every user and every \<open>n\<close> the top-\<open>n\<close> query returns \<open>n\<close> of the user's
  expenses, or all of them when there are fewer; they are the user's own, in descending
  order of amount; no expense of the user left out has a larger amount than one returned;
  and the expenses of any one amount that are returned are the first of that amount in
  storage order, in that order.  For the example, 10.00 and 20.00 on food and 5.00 on
  travel, the top-1 result is the row of 20.00.
\<close>

theorem top_expenses_are_the_largest:
  "length (get_top_expenses db uid (int n)) = min n (length (expenses_of db uid))
   \<and> (\<forall>x \<in> set (get_top_expenses db uid (int n)). user_id x = uid)
   \<and> sorted_wrt (\<lambda>x y. amount y \<le> amount x) (get_top_expenses db uid (int n))
   \<and> (\<exists>rest. mset (get_top_expenses db uid (int n) @ rest) = mset (expenses_of db uid)
          \<and> (\<forall>x \<in> set (get_top_expenses db uid (int n)). \<forall>y \<in> set rest. amount y \<le> amount x))
   \<and> (\<forall>a. prefix (filter (\<lambda>e. amount e = a) (get_top_expenses db uid (int n)))
                 (filter (\<lambda>e. amount e = a) (expenses_of db uid)))
   \<and> get_top_expenses example_db 1 1 = [expense_row 2 1 20 ''Food'' ''2024-01-10'']"
proof -
  let ?mine = "expenses_of db uid"
  let ?s = "order_by_desc amount ?mine"
  let ?top = "take n ?s"
  have top: "get_top_expenses db uid (int n) = ?top"
    by (rule get_top_expenses_take)
  have srt: "sorted_wrt (\<lambda>x y. amount y \<le> amount x) (?top @ drop n ?s)"
    using order_by_desc_sorted [of amount ?mine] by simp
  have len: "length ?top = min n (length ?mine)"
    by (simp add: order_by_desc_def min.commute)
  have own: "\<forall>x \<in> set ?top. user_id x = uid"
  proof
    fix x assume "x \<in> set ?top"
    then have "x \<in> set ?s" by (rule in_set_takeD)
    then have "x \<in># mset ?s" by simp
    then have "x \<in> set ?mine" by (simp add: mset_order_by_desc)
    then show "user_id x = uid" by (simp add: expenses_of_def)
  qed
  have s1: "sorted_wrt (\<lambda>x y. amount y \<le> amount x) ?top"
    using srt unfolding sorted_wrt_append by blast
  have s2: "\<forall>x \<in> set ?top. \<forall>y \<in> set (drop n ?s). amount y \<le> amount x"
    using srt unfolding sorted_wrt_append by blast
  have ms: "mset (?top @ drop n ?s) = mset ?mine"
    by (simp add: mset_order_by_desc)
  have big: "\<exists>rest. mset (?top @ rest) = mset ?mine
          \<and> (\<forall>x \<in> set ?top. \<forall>y \<in> set rest. amount y \<le> amount x)"
    using ms s2 by blast
  have tie: "prefix (filter (\<lambda>e. amount e = a) ?top) (filter (\<lambda>e. amount e = a) ?mine)" for a
  proof -
    have "filter (\<lambda>e. amount e = a) ?mine = filter (\<lambda>e. amount e = a) (?top @ drop n ?s)"
      by (simp add: order_by_desc_stable)
    also have "\<dots> = filter (\<lambda>e. amount e = a) ?top @ filter (\<lambda>e. amount e = a) (drop n ?s)"
      by (rule filter_append)
    finally show ?thesis by (rule prefixI)
  qed
  have ex: "get_top_expenses example_db 1 1 = [expense_row 2 1 20 ''Food'' ''2024-01-10'']"
    by code_simp
  show ?thesis
    unfolding top using len own s1 big tie ex by blast
qed

text \<open>
  Where amounts repeat: of the rows 7.00, 9.00, 7.00, 9.00 the top three are the two of
  9.00 in storage order and then the first of 7.00.
\<close>

theorem top_expenses_are_the_largest_witness:
  "get_top_expenses ties_db 1 (int 3)
     = [expense_row 2 1 9 ''Food'' ''2024-05-02'', expense_row 4 1 9 ''Other'' ''2024-05-04'',
        expense_row 1 1 7 ''Food'' ''2024-05-01'']
   \<and> length (get_top_expenses ties_db 1 (int 3)) = min 3 (length (expenses_of ties_db 1))
   \<and> prefix (filter (\<lambda>e. amount e = 7) (get_top_expenses ties_db 1 (int 3)))
        (filter (\<lambda>e. amount e = 7) (expenses_of ties_db 1))
   \<and> sorted_wrt (\<lambda>x y. amount y \<le> amount x) (get_top_expenses ties_db 1 (int 3))"
proof -
  have "get_top_expenses ties_db 1 (int 3)
     = [expense_row 2 1 9 ''Food'' ''2024-05-02'', expense_row 4 1 9 ''Other'' ''2024-05-04'',
        expense_row 1 1 7 ''Food'' ''2024-05-01'']"
    by code_simp
  then show ?thesis
    using top_expenses_are_the_largest [of ties_db 1 3] by blast
qed

section \<open>The text of the listing query\<close>

lemma get_expenses_where_text:
  "fst (get_expenses_where uid c sd ed s) =
     ''SELECT * FROM expenses WHERE user_id = ?''
       @ (if c \<noteq> [] \<and> c \<noteq> ''All'' then '' AND category = ?'' else [])
       @ (if sd \<noteq> [] then '' AND date >= ?'' else [])
       @ (if ed \<noteq> [] then '' AND date <= ?'' else [])
       @ (if s \<noteq> [] then '' AND (note LIKE ? OR category LIKE ?)'' else [])"
  by (simp add: get_expenses_where_def Let_def split: prod.splits)

text \<open>
  Claim C3.  Whatever \<^verbatim>\<open>sort_by\<close> and \<^verbatim>\<open>sort_order\<close> are, the text of the query is
  fixed text chosen by which filters are present, followed by \<^verbatim>\<open>ORDER BY\<close> with one
  of the columns date, amount, category and one of the directions ASC, DESC, or by nothing:
  a \<^verbatim>\<open>sort_by\<close> outside the three names adds no clause, a \<^verbatim>\<open>sort_order\<close> other than
  ASC gives DESC, and no submitted value enters the text; the parameters are those of the
  filters.
\<close>

theorem order_clause_from_allow_list:
  "fst (get_expenses_where uid c sd ed s) =
     ''SELECT * FROM expenses WHERE user_id = ?''
       @ (if c \<noteq> [] \<and> c \<noteq> ''All'' then '' AND category = ?'' else [])
       @ (if sd \<noteq> [] then '' AND date >= ?'' else [])
       @ (if ed \<noteq> [] then '' AND date <= ?'' else [])
       @ (if s \<noteq> [] then '' AND (note LIKE ? OR category LIKE ?)'' else [])
   \<and> (sort_by \<in> {''date'', ''amount'', ''category''} \<longrightarrow>
        fst (get_expenses_query uid c sd ed s sort_by sort_order) =
          fst (get_expenses_where uid c sd ed s) @ '' ORDER BY '' @ sort_by
            @ (if sort_order = ''ASC'' then '' ASC'' else '' DESC''))
   \<and> (sort_by \<notin> {''date'', ''amount'', ''category''} \<longrightarrow>
        fst (get_expenses_query uid c sd ed s sort_by sort_order) =
          fst (get_expenses_where uid c sd ed s))
   \<and> snd (get_expenses_query uid c sd ed s sort_by sort_order) =
        snd (get_expenses_where uid c sd ed s)"
proof -
  obtain q ps where w: "get_expenses_where uid c sd ed s = (q, ps)"
    by (cases "get_expenses_where uid c sd ed s")
  have a: "sort_by \<in> {''date'', ''amount'', ''category''} \<Longrightarrow>
      get_expenses_query uid c sd ed s sort_by sort_order =
        (q @ '' ORDER BY '' @ sort_by @ (if sort_order = ''ASC'' then '' ASC'' else '' DESC''), ps)"
    unfolding get_expenses_query_def w by (simp add: Let_def)
  have b: "sort_by \<notin> {''date'', ''amount'', ''category''} \<Longrightarrow>
      get_expenses_query uid c sd ed s sort_by sort_order = (q, ps)"
    unfolding get_expenses_query_def w by (simp add: Let_def)
  have c: "snd (get_expenses_query uid c sd ed s sort_by sort_order) = ps"
    using a b by (cases "sort_by \<in> {''date'', ''amount'', ''category''}") simp_all
  show ?thesis
    using a b c w get_expenses_where_text [of uid c sd ed s] by simp
qed

text \<open>
  Two requests: a lower-case direction sorts descending, and a \<^verbatim>\<open>sort_by\<close> that carries
  SQL adds no clause.
\<close>

theorem order_clause_from_allow_list_witness:
  "fst (get_expenses_query 1 ''Food'' [] [] [] ''amount'' ''asc'') =
     ''SELECT * FROM expenses WHERE user_id = ? AND category = ? ORDER BY amount DESC''
   \<and> fst (get_expenses_query 1 ''All'' [] [] ''x'' ''amount; DROP TABLE users'' ''ASC'') =
     ''SELECT * FROM expenses WHERE user_id = ? AND (note LIKE ? OR category LIKE ?)''"
  using order_clause_from_allow_list [of 1 "''Food''" "[]" "[]" "[]" "''amount''" "''asc''"]
    order_clause_from_allow_list [of 1 "''All''" "[]" "[]" "''x''" "''amount; DROP TABLE users''" "''ASC''"]
  by simp

section \<open>Signup\<close>

text \<open>
  Claim C4.  A signup request that submits a password shorter than 8 characters leaves the
  database as it was, flashes the message and redirects to signup; so does a request whose
  username or email some user row already has.  No user row is inserted in either case.
\<close>

theorem signup_rejection_leaves_users:
  assumes "request_method req = POST"
    and "form req ''username'' = Some u"
    and "form req ''email'' = Some m"
    and "form req ''password'' = Some p"
  shows "(length p < 8 \<longrightarrow>
            signup pf db req =
              (db, [(''Password must be at least 8 characters long!'', ''danger'')],
               Redirect ''signup''))
       \<and> (8 \<le> length p \<and> list_ex (\<lambda>r. username r = u \<or> email r = m) (users db) \<longrightarrow>
            signup pf db req =
              (db, [(''Username or email already exists!'', ''danger'')], Redirect ''signup''))
       \<and> (length p < 8 \<or> list_ex (\<lambda>r. username r = u \<or> email r = m) (users db) \<longrightarrow>
            users (fst (signup pf db req)) = users db)"
proof -
  have dup: "list_ex (\<lambda>r. username r = u \<or> email r = m) (users db) \<Longrightarrow>
      fetchone (filter (\<lambda>r. username r = u \<or> email r = m) (users db)) \<noteq> None"
    by (auto simp: fetchone_def list_ex_iff filter_empty_conv split: list.splits)
  show ?thesis
    using assms dup by (auto simp: signup_def Let_def)
qed

text \<open>
  Against the example database: a password of six characters, and the email of user 1.
\<close>

theorem signup_rejection_leaves_users_witness:
  "signup may_2024 example_db
       (post_form [(''username'', ''carl''), (''email'', ''carl@example.org''),
                   (''password'', ''secret'')])
     = (example_db, [(''Password must be at least 8 characters long!'', ''danger'')],
        Redirect ''signup'')
   \<and> signup may_2024 example_db
       (post_form [(''username'', ''dora''), (''email'', ''ann@example.org''),
                   (''password'', ''long enough'')])
     = (example_db, [(''Username or email already exists!'', ''danger'')], Redirect ''signup'')"
proof -
  let ?r1 = "post_form [(''username'', ''carl''), (''email'', ''carl@example.org''),
                   (''password'', ''secret'')]"
  let ?r2 = "post_form [(''username'', ''dora''), (''email'', ''ann@example.org''),
                   (''password'', ''long enough'')]"
  have a: "request_method ?r1 = POST" "form ?r1 ''username'' = Some ''carl''"
    "form ?r1 ''email'' = Some ''carl@example.org''" "form ?r1 ''password'' = Some ''secret''"
    by (simp_all add: post_form_def)
  have b: "request_method ?r2 = POST" "form ?r2 ''username'' = Some ''dora''"
    "form ?r2 ''email'' = Some ''ann@example.org''" "form ?r2 ''password'' = Some ''long enough''"
    by (simp_all add: post_form_def)
  have dup: "list_ex (\<lambda>r. username r = ''dora'' \<or> email r = ''ann@example.org'') (users example_db)"
    by (simp add: example_db_def no_rows_def)
  show ?thesis
    using signup_rejection_leaves_users [OF a, of may_2024 example_db]
      signup_rejection_leaves_users [OF b, of may_2024 example_db] dup
    by simp
qed

section \<open>Editing and deleting\<close>

text \<open>
  Claim C5.  For every expense id and every logged-in user, editing or deleting that id
  leaves the rows of every other user as they were, in number, order and content, also when
  the id is that of another user's expense.
\<close>

theorem other_users_rows_untouched:
  "filter (\<lambda>e. user_id e \<noteq> current_user)
       (expenses (fst (edit_expense pf db current_user eid req)))
     = filter (\<lambda>e. user_id e \<noteq> current_user) (expenses db)
   \<and> filter (\<lambda>e. user_id e \<noteq> current_user)
       (expenses (fst (delete_expense db current_user eid)))
     = filter (\<lambda>e. user_id e \<noteq> current_user) (expenses db)"
proof
  have upd: "filter (\<lambda>e. user_id e \<noteq> current_user)
        (map (\<lambda>e. if expense_id e = eid \<and> user_id e = current_user then f e else e) rs)
      = filter (\<lambda>e. user_id e \<noteq> current_user) rs"
    if "\<And>e. user_id (f e) = user_id e" for f :: "expense \<Rightarrow> expense" and rs
    using that by (induction rs) auto
  show "filter (\<lambda>e. user_id e \<noteq> current_user)
       (expenses (fst (edit_expense pf db current_user eid req)))
     = filter (\<lambda>e. user_id e \<noteq> current_user) (expenses db)"
    by (simp add: edit_expense_def Let_def upd split: option.splits prod.splits)
next
  show "filter (\<lambda>e. user_id e \<noteq> current_user)
       (expenses (fst (delete_expense db current_user eid)))
     = filter (\<lambda>e. user_id e \<noteq> current_user) (expenses db)"
    by (auto simp: delete_expense_def Let_def intro!: filter_cong)
qed

section \<open>The default budget\<close>

lemma get_budget_new:
  assumes "filter (\<lambda>b. budget_user_id b = uid) (user_budget db) = []"
  shows "get_budget db uid =
     (db\<lparr>user_budget := user_budget db @
            [\<lparr>budget_id = next_rowid (user_budget_seq db) (map budget_id (user_budget db)),
              budget_user_id = uid, monthly_income = 5000, savings_goal = 1000\<rparr>],
         user_budget_seq := next_rowid (user_budget_seq db) (map budget_id (user_budget db))\<rparr>,
      Some \<lparr>budget_id = next_rowid (user_budget_seq db) (map budget_id (user_budget db)),
            budget_user_id = uid, monthly_income = 5000, savings_goal = 1000\<rparr>)"
  using assms by (simp add: get_budget_def Let_def fetchone_def)

lemma get_budget_old:
  assumes "filter (\<lambda>b. budget_user_id b = uid) (user_budget db) \<noteq> []"
  shows "get_budget db uid = (db, Some (hd (filter (\<lambda>b. budget_user_id b = uid) (user_budget db))))"
  using assms by (simp add: get_budget_def Let_def fetchone_Some_hd fetchone_None_iff)


text \<open>
  Claim C6.  For a user with no budget row, budget access appends exactly one row, of that
  user, with monthly income 5000 and savings goal 1000, and returns it.  For a user with a
  row it returns the first such row and changes nothing; a second access therefore returns
  what the first did and leaves the database as the first left it.  Budget access keeps
  the user ids of the budget rows distinct: at most one row for each user.
\<close>

theorem get_budget_creates_default_once:
  "(filter (\<lambda>b. budget_user_id b = uid) (user_budget db) = [] \<longrightarrow>
      get_budget db uid =
        (db\<lparr>user_budget := user_budget db @
               [\<lparr>budget_id = next_rowid (user_budget_seq db) (map budget_id (user_budget db)),
                 budget_user_id = uid, monthly_income = 5000, savings_goal = 1000\<rparr>],
            user_budget_seq := next_rowid (user_budget_seq db) (map budget_id (user_budget db))\<rparr>,
         Some \<lparr>budget_id = next_rowid (user_budget_seq db) (map budget_id (user_budget db)),
               budget_user_id = uid, monthly_income = 5000, savings_goal = 1000\<rparr>))
   \<and> (filter (\<lambda>b. budget_user_id b = uid) (user_budget db) \<noteq> [] \<longrightarrow>
      get_budget db uid =
        (db, Some (hd (filter (\<lambda>b. budget_user_id b = uid) (user_budget db)))))
   \<and> get_budget (fst (get_budget db uid)) uid = (fst (get_budget db uid), snd (get_budget db uid))
   \<and> (distinct (map budget_user_id (user_budget db)) \<longrightarrow>
      distinct (map budget_user_id (user_budget (fst (get_budget db uid)))))"
proof (cases "filter (\<lambda>b. budget_user_id b = uid) (user_budget db) = []")
  case True
  let ?new = "\<lparr>budget_id = next_rowid (user_budget_seq db) (map budget_id (user_budget db)),
              budget_user_id = uid, monthly_income = 5000, savings_goal = 1000\<rparr>"
  let ?db' = "db\<lparr>user_budget := user_budget db @ [?new],
         user_budget_seq := next_rowid (user_budget_seq db) (map budget_id (user_budget db))\<rparr>"
  have first: "get_budget db uid = (?db', Some ?new)"
    by (rule get_budget_new [OF True])
  have has: "filter (\<lambda>b. budget_user_id b = uid) (user_budget ?db') = [?new]"
    using True by simp
  have again: "get_budget ?db' uid = (?db', Some ?new)"
    using get_budget_old [of uid ?db'] has by simp
  have fresh: "uid \<notin> budget_user_id ` set (user_budget db)"
    using True by (auto simp: filter_empty_conv)
  show ?thesis
    using True first again fresh by simp
next
  case False
  have "get_budget db uid = (db, Some (hd (filter (\<lambda>b. budget_user_id b = uid) (user_budget db))))"
    by (rule get_budget_old [OF False])
  then show ?thesis using False by simp
qed

text \<open>User 1 of the example has no budget row; the first access creates the default one.\<close>

theorem get_budget_creates_default_once_witness:
  "get_budget example_db 1 =
     (example_db\<lparr>user_budget := [\<lparr>budget_id = 1, budget_user_id = 1,
                                    monthly_income = 5000, savings_goal = 1000\<rparr>],
                 user_budget_seq := 1\<rparr>,
      Some \<lparr>budget_id = 1, budget_user_id = 1, monthly_income = 5000, savings_goal = 1000\<rparr>)
   \<and> get_budget (fst (get_budget example_db 1)) 1 =
       (fst (get_budget example_db 1), snd (get_budget example_db 1))
   \<and> distinct (map budget_user_id (user_budget (fst (get_budget example_db 1))))"
proof -
  have a: "filter (\<lambda>b. budget_user_id b = 1) (user_budget example_db) = []"
    by (simp add: example_db_def no_rows_def)
  have b: "distinct (map budget_user_id (user_budget example_db))"
    by (simp add: example_db_def no_rows_def)
  have c: "user_budget example_db = []" "user_budget_seq example_db = 0"
    by (simp_all add: example_db_def no_rows_def)
  note t = get_budget_creates_default_once [of 1 example_db]
  have first: "get_budget example_db 1 =
     (example_db\<lparr>user_budget := [\<lparr>budget_id = 1, budget_user_id = 1,
                                    monthly_income = 5000, savings_goal = 1000\<rparr>],
                 user_budget_seq := 1\<rparr>,
      Some \<lparr>budget_id = 1, budget_user_id = 1, monthly_income = 5000, savings_goal = 1000\<rparr>)"
    using t a c by (simp add: next_rowid_def)
  have again: "get_budget (fst (get_budget example_db 1)) 1 =
       (fst (get_budget example_db 1), snd (get_budget example_db 1))"
    using t by blast
  have one: "distinct (map budget_user_id (user_budget (fst (get_budget example_db 1))))"
    using t b by blast
  show ?thesis
    using first again one by blast
qed

section \<open>Budget settings without a budget row\<close>

text \<open>
  Claim C9.  When the user has no budget row, a POST to \<^verbatim>\<open>/set_budget\<close> leaves the
  database as it was: the update matches no row and nothing is inserted.  A request that
  submits both fields is still answered with the success message and the redirect to the
  dashboard, so the submitted values are lost.
\<close>

theorem set_budget_without_row_changes_nothing:
  assumes "request_method req = POST"
    and "filter (\<lambda>b. budget_user_id b = current_user) (user_budget db) = []"
  shows "fst (set_budget pf db current_user req) = db
       \<and> (form req ''monthly_income'' \<noteq> None \<and> form req ''savings_goal'' \<noteq> None \<longrightarrow>
            set_budget pf db current_user req =
              (db, [(''Budget settings updated!'', ''success'')], Redirect ''dashboard''))"
proof -
  have same: "map (\<lambda>b. if budget_user_id b = current_user then f b else b) (user_budget db)
      = user_budget db" for f :: "budget \<Rightarrow> budget"
    using assms(2) by (induction "user_budget db") (auto simp: filter_empty_conv map_idI)
  show ?thesis
    using assms(1) by (auto simp: set_budget_def Let_def same split: option.splits)
qed

text \<open>User 1 of the example has no budget row; the submitted 6000 and 500 are lost.\<close>

theorem set_budget_without_row_changes_nothing_witness:
  "set_budget may_2024 example_db 1
       (post_form [(''monthly_income'', ''6000''), (''savings_goal'', ''500'')])
     = (example_db, [(''Budget settings updated!'', ''success'')], Redirect ''dashboard'')"
proof -
  let ?r = "post_form [(''monthly_income'', ''6000''), (''savings_goal'', ''500'')]"
  have a: "request_method ?r = POST" by (simp add: post_form_def)
  have b: "filter (\<lambda>b. budget_user_id b = 1) (user_budget example_db) = []"
    by (simp add: example_db_def no_rows_def)
  have c: "form ?r ''monthly_income'' \<noteq> None \<and> form ?r ''savings_goal'' \<noteq> None"
    by (simp add: post_form_def)
  show ?thesis
    using set_budget_without_row_changes_nothing [OF a b, of may_2024] c by simp
qed

section \<open>CSV export of the current month\<close>









section \<open>Dashboard totals\<close>





end
